theory Spec2Isabelle
  imports Complex_Main "HOL-Library.Word"
begin

section \<open>The image proxy of \<open>src/index.js\<close>\<close>

text \<open>
  The program is one Express application. Its route \<open>GET /proxy/image\<close> reads the query
  parameter \<open>url\<close>, checks it with \<open>isValidImageUrl\<close>, fetches it with up to three axios
  requests that differ in their headers, and answers with the fetched bytes or with a JSON
  error. The platform and the libraries (the \<open>URL\<close> constructor, \<open>Math.random\<close>, axios,
  and what Express does with a header value and with a conditional request) are not part
  of the program: they are parameters of the model, collected in the record \<open>env\<close> below. JavaScript strings are modelled as \<open>string\<close>; every string the program
  compares or builds is ASCII.
\<close>

subsection \<open>String operations\<close>

text \<open>
  \<open>String.prototype.startsWith\<close>, \<open>includes\<close> (named \<open>includes_str\<close> here) and
  \<open>endsWith\<close>, each with the receiver as first argument and the search string as second.
\<close>

fun startsWith :: "string \<Rightarrow> string \<Rightarrow> bool" where
  "startsWith s [] = True"
| "startsWith [] (c # cs) = False"
| "startsWith (x # xs) (c # cs) = (x = c \<and> startsWith xs cs)"

fun includes_str :: "string \<Rightarrow> string \<Rightarrow> bool" where
  "includes_str [] d = (d = [])"
| "includes_str (x # xs) d = (startsWith (x # xs) d \<or> includes_str xs d)"

definition endsWith :: "string \<Rightarrow> string \<Rightarrow> bool" where
  "endsWith s d = startsWith (rev s) (rev d)"

subsection \<open>URL validation\<close>

text \<open>
  Of the object that \<open>new URL(url)\<close> builds the program reads \<open>hostname\<close> only. The
  constructor is a parameter \<open>URL\<close> of type \<open>string \<Rightarrow> parsedUrl option\<close>; \<open>None\<close> stands
  for the \<open>TypeError\<close> it throws on a string that is not an absolute URL, which
  \<open>isValidImageUrl\<close> catches.
\<close>

record parsedUrl =
  hostname :: string

definition validDomains :: "string list" where
  "validDomains =
    [''scontent.cdninstagram.com'',
     ''instagram.com'',
     ''threads.net'',
     ''fbcdn.net'',
     ''scontent.xx.fbcdn.net'']"

definition isValidImageUrl :: "(string \<Rightarrow> parsedUrl option) \<Rightarrow> string \<Rightarrow> bool" where
  "isValidImageUrl URL url =
    (case URL url of
       None \<Rightarrow> False
     | Some parsedUrl \<Rightarrow>
         list_ex (\<lambda>domain. includes_str (hostname parsedUrl) domain \<or> endsWith (hostname parsedUrl) domain)
           validDomains)"

text \<open>
  The validator with the \<open>endsWith\<close> disjunct of lines 186-190 deleted; it is compared
  with \<open>isValidImageUrl\<close> below.
\<close>

definition isValidImageUrl_includes_only :: "(string \<Rightarrow> parsedUrl option) \<Rightarrow> string \<Rightarrow> bool" where
  "isValidImageUrl_includes_only URL url =
    (case URL url of
       None \<Rightarrow> False
     | Some parsedUrl \<Rightarrow> list_ex (\<lambda>domain. includes_str (hostname parsedUrl) domain) validDomains)"

text \<open>
  The results of the platform's constructor on the URLs used as concrete inputs below. A
  string outside the table is taken not to parse; of these, only the empty string and
  \<open>not a url\<close> are used, and the platform rejects both.
\<close>

definition URL_table :: "string \<Rightarrow> parsedUrl option" where
  "URL_table =
    map_of
     [(''https://scontent.cdninstagram.com/foo.jpg'', \<lparr>hostname = ''scontent.cdninstagram.com''\<rparr>),
      (''https://evil.example.com/x.jpg'', \<lparr>hostname = ''evil.example.com''\<rparr>),
      (''https://instagram.com.attacker.net/x.jpg'', \<lparr>hostname = ''instagram.com.attacker.net''\<rparr>)]"

subsection \<open>Numbers, random draws and joined strings\<close>

text \<open>
  \<open>String(n)\<close> for a non-negative integer \<open>n\<close>, as the template literal of
  \<open>setCacheHeaders\<close> and \<open>Array.prototype.join\<close> apply it.
\<close>

function String_of_nat :: "nat \<Rightarrow> string" where
  "String_of_nat n =
    (if n < 10 then [''0123456789'' ! n]
     else String_of_nat (n div 10) @ [''0123456789'' ! (n mod 10)])"
  by pat_completeness auto
termination
  by (relation "measure id") auto

declare String_of_nat.simps [simp del]

fun join :: "string list \<Rightarrow> string \<Rightarrow> string" where
  "join [] sep = []"
| "join [x] sep = x"
| "join (x # y # ys) sep = x @ sep @ join (y # ys) sep"

text \<open>
  \<open>Math.random()\<close> returns a number that is at least 0 and less than 1. The type
  \<open>unit_draw\<close> holds exactly these values, so that \<open>Math.floor(Math.random() * n)\<close> is an
  index below \<open>n\<close> in the model as it is in the program. (Multiplying a double in that
  range by 4 or by 256 is exact, so the floor of the product is the floor of the exact
  product.)
\<close>

typedef unit_draw = "{r::rat. 0 \<le> r \<and> r < 1}"
  by (rule exI [of _ 0]) simp

setup_lifting type_definition_unit_draw

lift_definition half_draw :: unit_draw is "1 / 2"
  by simp

subsection \<open>The environment and the effects of one request\<close>

type_synonym byte = "8 word"

record axios_config =
  cfg_method :: string
  cfg_url :: string
  cfg_headers :: "(string \<times> string) list"
  cfg_responseType :: string
  cfg_timeout :: nat
  cfg_maxRedirects :: nat

text \<open>
  What the handler reads of an axios response: \<open>headers\<close> (keyed by lower-case name) and
  \<open>data\<close>, the body as bytes (\<open>responseType: "arraybuffer"\<close>). Of a rejection it reads
  \<open>code\<close>, \<open>response?.status\<close> and \<open>message\<close>; \<open>None\<close> is \<open>undefined\<close>.
\<close>

record axios_response =
  resp_status :: nat
  resp_headers :: "string \<rightharpoonup> string"
  resp_data :: "byte list"

record axios_error =
  err_code :: "string option"
  err_response :: "axios_response option"
  err_message :: string

text \<open>
  The environment of one request. \<open>env_URL\<close> is the \<open>URL\<close> constructor; \<open>env_random k\<close> is
  the value of the \<open>k\<close>-th call of \<open>Math.random\<close> made while the request is handled;
  \<open>env_axios k config\<close> is how the \<open>k\<close>-th axios call of the request settles when it is
  made with \<open>config\<close>: \<open>Inr\<close> a response when the promise resolves, \<open>Inl\<close> an error when
  it rejects (a transport failure, a timeout, or a status outside 2xx).

  Two fields describe Express. \<open>env_content_type v\<close> is the value that
  \<open>res.set("Content-Type", v)\<close> stores: Express appends \<open>; charset=...\<close> to a value
  without a charset parameter when its media type has a default charset (text types, for
  instance) and stores other values as they are. \<open>env_fresh etag\<close> is the result of the
  freshness test that \<open>res.send\<close> makes for the request (its \<open>If-None-Match\<close> and
  \<open>If-Modified-Since\<close> headers) against a response whose \<open>ETag\<close> header is \<open>etag\<close>;
  the handler sets no \<open>Last-Modified\<close> header.
\<close>

record env =
  env_URL :: "string \<Rightarrow> parsedUrl option"
  env_random :: "nat \<Rightarrow> unit_draw"
  env_axios :: "nat \<Rightarrow> axios_config \<Rightarrow> axios_error + axios_response"
  env_content_type :: "string \<Rightarrow> string"
  env_fresh :: "string option \<Rightarrow> bool"

text \<open>
  What the handler has done so far: the axios calls it has issued, in order, the lines it
  has written to the console, and the number of \<open>Math.random\<close> calls it has made.
\<close>

record world =
  requests :: "axios_config list"
  console :: "string list"
  draws :: nat

definition world0 :: world where
  "world0 = \<lparr>requests = [], console = [], draws = 0\<rparr>"

definition Math_random :: "env \<Rightarrow> world \<Rightarrow> unit_draw \<times> world" where
  "Math_random E w = (env_random E (draws w), w\<lparr>draws := Suc (draws w)\<rparr>)"

text \<open>\<open>Math.floor(Math.random() * n)\<close>.\<close>

definition floor_random :: "env \<Rightarrow> nat \<Rightarrow> world \<Rightarrow> nat \<times> world" where
  "floor_random E n w =
    (case Math_random E w of (r, w') \<Rightarrow> (nat \<lfloor>Rep_unit_draw r * of_nat n\<rfloor>, w'))"

text \<open>\<open>Array.from({ length: k }, () => Math.floor(Math.random() * 256))\<close>.\<close>

fun random_octets :: "env \<Rightarrow> nat \<Rightarrow> world \<Rightarrow> nat list \<times> world" where
  "random_octets E 0 w = ([], w)"
| "random_octets E (Suc k) w =
    (case floor_random E 256 w of
       (x, w1) \<Rightarrow> (case random_octets E k w1 of (xs, w2) \<Rightarrow> (x # xs, w2)))"

definition generateRandomIP :: "env \<Rightarrow> world \<Rightarrow> string \<times> world" where
  "generateRandomIP E w =
    (case random_octets E (Suc (Suc (Suc (Suc 0)))) w of
       (octets, w') \<Rightarrow> (join (map String_of_nat octets) ''.'', w'))"

definition console_log :: "string \<Rightarrow> world \<Rightarrow> world" where
  "console_log line w = w\<lparr>console := console w @ [line]\<rparr>"

definition axios_call :: "env \<Rightarrow> axios_config \<Rightarrow> world \<Rightarrow> (axios_error + axios_response) \<times> world" where
  "axios_call E config w =
    (env_axios E (length (requests w)) config, w\<lparr>requests := requests w @ [config]\<rparr>)"

subsection \<open>The response object\<close>

text \<open>
  The Express response of a \<open>GET\<close> request: the status code (200 until it is changed),
  the headers set through \<open>res.set\<close> as Express stores them, and the body that is sent
  (\<open>None\<close> while nothing has been sent). A JSON body of the program is always an object
  with the single field \<open>error\<close>.
\<close>

datatype body = Json_error string | Buffer "byte list"

record res =
  statusCode :: nat
  res_headers :: "string \<rightharpoonup> string"
  res_body :: "body option"

definition res0 :: res where
  "res0 = \<lparr>statusCode = 200, res_headers = Map.empty, res_body = None\<rparr>"

definition status :: "nat \<Rightarrow> res \<Rightarrow> res" where
  "status code r = r\<lparr>statusCode := code\<rparr>"

text \<open>
  \<open>res.json\<close> is only called after \<open>res.status\<close> with a status from 400 to 500, for
  which Express makes no freshness test: the body is sent as it is.
\<close>

definition json_error :: "string \<Rightarrow> res \<Rightarrow> res" where
  "json_error msg r = r\<lparr>res_body := Some (Json_error msg)\<rparr>"

text \<open>\<open>res.set\<close> for a field other than \<open>Content-Type\<close>, and for \<open>Content-Type\<close>.\<close>

definition set_header :: "string \<Rightarrow> string \<Rightarrow> res \<Rightarrow> res" where
  "set_header field val r = r\<lparr>res_headers := (res_headers r)(field \<mapsto> val)\<rparr>"

definition set_content_type :: "env \<Rightarrow> string \<Rightarrow> res \<Rightarrow> res" where
  "set_content_type E val r =
    r\<lparr>res_headers := (res_headers r)(''Content-Type'' \<mapsto> env_content_type E val)\<rparr>"

text \<open>
  \<open>req.fresh\<close>: for a status from 200 to 299 or 304, the freshness test of the request
  against the \<open>ETag\<close> header of the response.
\<close>

definition req_fresh :: "env \<Rightarrow> res \<Rightarrow> bool" where
  "req_fresh E r =
    ((200 \<le> statusCode r \<and> statusCode r < 300 \<or> statusCode r = 304)
     \<and> env_fresh E (res_headers r ''ETag''))"

text \<open>
  \<open>res.send(buffer)\<close>, called with the \<open>Content-Type\<close> and \<open>ETag\<close> headers already
  set: when the request is fresh, Express sets the status 304, removes the
  \<open>Content-Type\<close> header and sends an empty body; otherwise it sends the bytes.
\<close>

definition send :: "env \<Rightarrow> byte list \<Rightarrow> res \<Rightarrow> res" where
  "send E bytes r =
    (if req_fresh E r
     then r\<lparr>statusCode := 304, res_headers := (res_headers r)(''Content-Type'' := None),
            res_body := Some (Buffer [])\<rparr>
     else r\<lparr>res_body := Some (Buffer bytes)\<rparr>)"

text \<open>\<open>Buffer.from(buffer)\<close> copies the bytes of its argument.\<close>

definition Buffer_from :: "byte list \<Rightarrow> byte list" where
  "Buffer_from bytes = map (\<lambda>b. b) bytes"

text \<open>\<open>setCacheHeaders(res, maxAge = 3600)\<close>: \<open>None\<close> is the omitted argument.\<close>

definition setCacheHeaders :: "res \<Rightarrow> nat option \<Rightarrow> res" where
  "setCacheHeaders r maxAge_arg =
    (let maxAge = (case maxAge_arg of None \<Rightarrow> 3600 | Some n \<Rightarrow> n) in
     set_header ''ETag'' ''true''
       (set_header ''Cache-Control'' (''public, max-age='' @ String_of_nat maxAge) r))"

subsection \<open>The handler of \<open>GET /proxy/image\<close>\<close>

definition userAgents :: "string list" where
  "userAgents =
    [''Mozilla/5.0 (Windows NT 10.0; Win64; x64) AppleWebKit/537.36 (KHTML, like Gecko) Chrome/120.0.0.0 Safari/537.36'',
     ''Mozilla/5.0 (Macintosh; Intel Mac OS X 10_15_7) AppleWebKit/537.36 (KHTML, like Gecko) Chrome/120.0.0.0 Safari/537.36'',
     ''Mozilla/5.0 (X11; Linux x86_64) AppleWebKit/537.36 (KHTML, like Gecko) Chrome/120.0.0.0 Safari/537.36'',
     ''Mozilla/5.0 (iPhone; CPU iPhone OS 17_0 like Mac OS X) AppleWebKit/605.1.15 (KHTML, like Gecko) Version/17.0 Mobile/15E148 Safari/604.1'']"

definition headers :: "string \<Rightarrow> (string \<times> string) list" where
  \<open>headers randomUA =
    [(''User-Agent'', randomUA),
     (''Accept'', ''image/avif,image/webp,image/apng,image/svg+xml,image/*,*/*;q=0.8''),
     (''Accept-Language'', ''en-US,en;q=0.9''),
     (''Accept-Encoding'', ''gzip, deflate, br''),
     (''Cache-Control'', ''no-cache''),
     (''Pragma'', ''no-cache''),
     (''Sec-Fetch-Dest'', ''image''),
     (''Sec-Fetch-Mode'', ''no-cors''),
     (''Sec-Fetch-Site'', ''cross-site''),
     (''Sec-Ch-Ua'', ''"Not_A Brand";v="8", "Chromium";v="120", "Google Chrome";v="120"''),
     (''Sec-Ch-Ua-Mobile'', ''?0''),
     (''Sec-Ch-Ua-Platform'', ''"Windows"''),
     (''Referer'', ''https://www.threads.net/''),
     (''Origin'', ''https://www.threads.net'')]\<close>

definition minimalHeaders :: "string \<Rightarrow> (string \<times> string) list" where
  "minimalHeaders randomUA =
    [(''User-Agent'', randomUA),
     (''Accept'', ''image/*,*/*;q=0.8''),
     (''Referer'', ''https://www.threads.net/'')]"

definition altHeaders :: "string \<Rightarrow> string \<Rightarrow> (string \<times> string) list" where
  "altHeaders randomUA ip =
    [(''User-Agent'', randomUA),
     (''Accept'', ''image/*,*/*;q=0.8''),
     (''Referer'', ''https://instagram.com/''),
     (''X-Forwarded-For'', ip)]"

text \<open>The argument of each of the three axios calls; they differ in \<open>headers\<close> only.\<close>

definition get_config :: "string \<Rightarrow> (string \<times> string) list \<Rightarrow> axios_config" where
  "get_config url hs =
    \<lparr>cfg_method = ''GET'', cfg_url = url, cfg_headers = hs,
     cfg_responseType = ''arraybuffer'', cfg_timeout = 25000, cfg_maxRedirects = 5\<rparr>"

text \<open>
  Lines 85-144: the nested \<open>try\<close>/\<open>catch\<close> blocks. The result is the response of the
  first call that resolves, or the error of the third call (\<open>throw lastError\<close>).
\<close>

definition fetch_strategies ::
  "env \<Rightarrow> string \<Rightarrow> string \<Rightarrow> world \<Rightarrow> (axios_error + axios_response) \<times> world" where
  "fetch_strategies E url randomUA w =
    (case axios_call E (get_config url (headers randomUA)) w of
       (Inr response, w1) \<Rightarrow> (Inr response, w1)
     | (Inl error, w1) \<Rightarrow>
        (case axios_call E (get_config url (minimalHeaders randomUA))
                (console_log ''Direct request failed, trying alternative methods...'' w1) of
           (Inr response, w2) \<Rightarrow> (Inr response, w2)
         | (Inl error2, w2) \<Rightarrow>
            (case generateRandomIP E w2 of
               (ip, w3) \<Rightarrow>
                (case axios_call E (get_config url (altHeaders randomUA ip)) w3 of
                   (Inr response, w4) \<Rightarrow> (Inr response, w4)
                 | (Inl error3, w4) \<Rightarrow> (Inl error3, w4)))))"

text \<open>Lines 146-154. \<open>x || "image/jpeg"\<close> takes the default when \<open>x\<close> is \<open>undefined\<close> or empty.\<close>

definition send_image :: "env \<Rightarrow> axios_response \<Rightarrow> res \<Rightarrow> res" where
  "send_image E response r =
    (let contentType =
       (case resp_headers response ''content-type'' of
          None \<Rightarrow> ''image/jpeg''
        | Some t \<Rightarrow> if t = [] then ''image/jpeg'' else t)
     in send E (Buffer_from (resp_data response))
          (set_content_type E contentType (setCacheHeaders r (Some 86400))))"

text \<open>Lines 155-171: the outer \<open>catch\<close> block.\<close>

definition catch_error :: "axios_error \<Rightarrow> res \<Rightarrow> world \<Rightarrow> res \<times> world" where
  "catch_error error r w =
    (let w' = console_log (''Proxy error: '' @ err_message error) w in
     if err_code error = Some ''ENOTFOUND'' \<or> err_code error = Some ''ECONNREFUSED''
       then (json_error ''Image not found'' (status 404 r), w')
     else if (case err_response error of None \<Rightarrow> False | Some response \<Rightarrow> resp_status response = 403)
       then (json_error ''Access forbidden'' (status 403 r), w')
     else if err_code error = Some ''ETIMEDOUT''
       then (json_error ''Request timeout'' (status 408 r), w')
     else (json_error ''Failed to fetch image'' (status 500 r), w'))"

text \<open>Lines 57-64: \<open>userAgents[Math.floor(Math.random() * userAgents.length)]\<close>.\<close>

definition pick_randomUA :: "env \<Rightarrow> world \<Rightarrow> string \<times> world" where
  "pick_randomUA E w =
    (case floor_random E (length userAgents) w of (i, w1) \<Rightarrow> (userAgents ! i, w1))"

text \<open>
  The handler, from a fresh response and a fresh log. Its argument is \<open>req.query.url\<close>:
  \<open>None\<close> when the parameter is absent, \<open>Some url\<close> when it is the string \<open>url\<close> (a
  parameter that the query parser turns into an array or an object is outside the model).
  \<open>!url\<close> holds for the absent parameter and for the empty string.
\<close>

definition proxy_image :: "env \<Rightarrow> string option \<Rightarrow> res \<times> world" where
  "proxy_image E query_url =
    (case query_url of
       None \<Rightarrow> (json_error ''URL parameter is required'' (status 400 res0), world0)
     | Some url \<Rightarrow>
        if url = [] then (json_error ''URL parameter is required'' (status 400 res0), world0)
        else if \<not> isValidImageUrl (env_URL E) url
          then (json_error ''Invalid image URL'' (status 400 res0), world0)
        else
          (case pick_randomUA E world0 of
             (randomUA, w1) \<Rightarrow>
              (case fetch_strategies E url randomUA w1 of
                 (Inr response, w2) \<Rightarrow> (send_image E response res0, w2)
               | (Inl error, w2) \<Rightarrow> catch_error error res0 w2)))"

text \<open>
  The configurations of the three calls that a request for \<open>url\<close> can make in the
  environment \<open>E\<close>: the user agent is the one picked from the fresh log, the address of
  the third is generated after that pick.
\<close>

definition strategy1 :: "env \<Rightarrow> string \<Rightarrow> axios_config" where
  "strategy1 E url = get_config url (headers (fst (pick_randomUA E world0)))"

definition strategy2 :: "env \<Rightarrow> string \<Rightarrow> axios_config" where
  "strategy2 E url = get_config url (minimalHeaders (fst (pick_randomUA E world0)))"

definition strategy3 :: "env \<Rightarrow> string \<Rightarrow> axios_config" where
  "strategy3 E url =
    get_config url
      (altHeaders (fst (pick_randomUA E world0))
         (fst (generateRandomIP E (snd (pick_randomUA E world0)))))"

subsection \<open>Concrete environments\<close>

text \<open>
  Environments for evaluating the handler on concrete inputs: the constructor is
  \<open>URL_table\<close>, every draw is one half, and the \<open>k\<close>-th axios call settles as the
  \<open>k\<close>-th entry of a given list, whatever its configuration (a call beyond the list is
  refused). \<open>res.set\<close> stores \<open>text/plain\<close> with the charset Express appends to it and the
  image types used below unchanged. In \<open>test_env\<close> the request carries no validator, so
  it is never fresh; in \<open>revalidating_env\<close> it carries \<open>If-None-Match: true\<close>, which
  matches a response whose \<open>ETag\<close> is \<open>true\<close>.
\<close>

definition content_type_table :: "string \<Rightarrow> string" where
  "content_type_table v = (if v = ''text/plain'' then ''text/plain; charset=utf-8'' else v)"



definition refused_error :: axios_error where
  "refused_error =
    \<lparr>err_code = Some ''ECONNREFUSED'', err_response = None,
     err_message = ''connect ECONNREFUSED 203.0.113.7:443''\<rparr>"

definition forbidden_error :: axios_error where
  "forbidden_error =
    \<lparr>err_code = Some ''ERR_BAD_REQUEST'',
     err_response = Some \<lparr>resp_status = 403, resp_headers = Map.empty, resp_data = []\<rparr>,
     err_message = ''Request failed with status code 403''\<rparr>"

definition reset_error :: axios_error where
  "reset_error =
    \<lparr>err_code = Some ''ECONNRESET'', err_response = None, err_message = ''socket hang up''\<rparr>"

text \<open>
  The rejection of axios when the \<open>timeout\<close> of a request elapses: its code is
  \<open>ECONNABORTED\<close> (axios uses \<open>ETIMEDOUT\<close> here only under the option
  \<open>transitional.clarifyTimeoutError\<close>, which the program does not set). The code
  \<open>ETIMEDOUT\<close> without that option is the operating system's connection timeout.
\<close>

definition axios_timeout_error :: axios_error where
  "axios_timeout_error =
    \<lparr>err_code = Some ''ECONNABORTED'', err_response = None,
     err_message = ''timeout of 25000ms exceeded''\<rparr>"

definition os_timeout_error :: axios_error where
  "os_timeout_error =
    \<lparr>err_code = Some ''ETIMEDOUT'', err_response = None,
     err_message = ''connect ETIMEDOUT 203.0.113.7:443''\<rparr>"

definition webp_response :: axios_response where
  "webp_response =
    \<lparr>resp_status = 200, resp_headers = [''content-type'' \<mapsto> ''image/webp''],
     resp_data = [0xFF, 0xD8]\<rparr>"


definition scripted :: "(axios_error + axios_response) list \<Rightarrow> nat \<Rightarrow> axios_config \<Rightarrow> axios_error + axios_response" where
  "scripted outcomes k config = (if k < length outcomes then outcomes ! k else Inl refused_error)"

definition test_env :: "(axios_error + axios_response) list \<Rightarrow> env" where
  "test_env outcomes =
    \<lparr>env_URL = URL_table, env_random = (\<lambda>k. half_draw), env_axios = scripted outcomes,
     env_content_type = content_type_table, env_fresh = (\<lambda>etag. False)\<rparr>"


section \<open>Properties of the string operations\<close>

lemma startsWith_iff: "startsWith s d \<longleftrightarrow> (\<exists>q. s = d @ q)"
  by (induction s d rule: startsWith.induct) auto

lemma includes_iff: "includes_str s d \<longleftrightarrow> (\<exists>p q. s = p @ d @ q)"
proof (induction s)
  case Nil
  show ?case by auto
next
  case (Cons x xs)
  have "(\<exists>p q. x # xs = p @ d @ q) \<longleftrightarrow> (\<exists>q. x # xs = d @ q) \<or> (\<exists>p q. xs = p @ d @ q)"
  proof
    assume "\<exists>p q. x # xs = p @ d @ q"
    then obtain p q where pq: "x # xs = p @ d @ q" by blast
    show "(\<exists>q. x # xs = d @ q) \<or> (\<exists>p q. xs = p @ d @ q)"
    proof (cases p)
      case Nil
      with pq show ?thesis by auto
    next
      case (Cons y ys)
      with pq have "xs = ys @ d @ q" by simp
      then show ?thesis by blast
    qed
  next
    assume "(\<exists>q. x # xs = d @ q) \<or> (\<exists>p q. xs = p @ d @ q)"
    then show "\<exists>p q. x # xs = p @ d @ q"
    proof
      assume "\<exists>q. x # xs = d @ q"
      then obtain q where "x # xs = [] @ d @ q" by auto
      then show ?thesis by blast
    next
      assume "\<exists>p q. xs = p @ d @ q"
      then obtain p q where "x # xs = (x # p) @ d @ q" by auto
      then show ?thesis by blast
    qed
  qed
  with Cons show ?case by (simp add: startsWith_iff)
qed

lemma endsWith_iff: "endsWith s d \<longleftrightarrow> (\<exists>p. s = p @ d)"
proof
  assume "endsWith s d"
  then obtain q where "rev s = rev d @ q"
    by (auto simp: endsWith_def startsWith_iff)
  then have "s = rev q @ d" by (simp add: rev_swap)
  then show "\<exists>p. s = p @ d" by blast
next
  assume "\<exists>p. s = p @ d"
  then show "endsWith s d" by (auto simp: endsWith_def startsWith_iff)
qed

lemma endsWith_includes: "endsWith s d \<Longrightarrow> includes_str s d"
proof -
  assume "endsWith s d"
  then obtain p where "s = p @ d @ []" by (auto simp: endsWith_iff)
  then show "includes_str s d" unfolding includes_iff by blast
qed

section \<open>Properties of the effects\<close>



lemma floor_random_less: "0 < n \<Longrightarrow> fst (floor_random E n w) < n"
proof -
  assume n: "0 < n"
  let ?r = "Rep_unit_draw (env_random E (draws w))"
  have r: "0 \<le> ?r" "?r < 1" using Rep_unit_draw [of "env_random E (draws w)"] by auto
  have "?r * of_nat n < of_nat n" using r n by simp
  then have "\<lfloor>?r * of_nat n\<rfloor> < int n" by (simp add: floor_less_iff)
  moreover have "0 \<le> \<lfloor>?r * of_nat n\<rfloor>" using r by simp
  ultimately have "nat \<lfloor>?r * of_nat n\<rfloor> < n" by linarith
  then show ?thesis by (simp add: floor_random_def Math_random_def)
qed

lemma snd_floor_random: "snd (floor_random E n w) = w\<lparr>draws := Suc (draws w)\<rparr>"
  by (simp add: floor_random_def Math_random_def)

lemma snd_pick_randomUA: "snd (pick_randomUA E w) = w\<lparr>draws := Suc (draws w)\<rparr>"
  by (simp add: pick_randomUA_def floor_random_def Math_random_def)

lemma fst_pick_randomUA:
  "fst (pick_randomUA E w) = userAgents ! nat \<lfloor>Rep_unit_draw (env_random E (draws w)) * 4\<rfloor>"
  by (simp add: pick_randomUA_def floor_random_def Math_random_def userAgents_def)

lemma pick_randomUA_in_pool: "fst (pick_randomUA E w) \<in> set userAgents"
proof -
  have "fst (floor_random E (length userAgents) w) < length userAgents"
    by (rule floor_random_less) (simp add: userAgents_def)
  then show ?thesis
    by (simp add: pick_randomUA_def case_prod_beta)
qed

lemma snd_random_octets: "snd (random_octets E k w) = w\<lparr>draws := draws w + k\<rparr>"
proof (induction k arbitrary: w)
  case 0
  show ?case by simp
next
  case (Suc k)
  have "snd (random_octets E (Suc k) w) = snd (random_octets E k (snd (floor_random E 256 w)))"
    by (simp add: case_prod_beta)
  then show ?case by (simp add: Suc snd_floor_random)
qed

lemma fst_random_octets_cong:
  "draws w = draws w' \<Longrightarrow> fst (random_octets E k w) = fst (random_octets E k w')"
proof (induction k arbitrary: w w')
  case 0
  show ?case by simp
next
  case (Suc k)
  have x: "fst (floor_random E 256 w) = fst (floor_random E 256 w')"
    using Suc.prems by (simp add: floor_random_def Math_random_def)
  have "draws (snd (floor_random E 256 w)) = draws (snd (floor_random E 256 w'))"
    using Suc.prems by (simp add: snd_floor_random)
  then have "fst (random_octets E k (snd (floor_random E 256 w)))
      = fst (random_octets E k (snd (floor_random E 256 w')))"
    by (rule Suc.IH)
  with x show ?case by (simp add: case_prod_beta)
qed

lemma snd_generateRandomIP: "snd (generateRandomIP E w) = w\<lparr>draws := draws w + 4\<rparr>"
proof -
  have "snd (generateRandomIP E w) = snd (random_octets E (Suc (Suc (Suc (Suc 0)))) w)"
    by (simp add: generateRandomIP_def case_prod_beta)
  then show ?thesis by (simp only: snd_random_octets) simp
qed

lemma fst_generateRandomIP_cong:
  "draws w = draws w' \<Longrightarrow> fst (generateRandomIP E w) = fst (generateRandomIP E w')"
proof -
  assume "draws w = draws w'"
  then have "fst (random_octets E (Suc (Suc (Suc (Suc 0)))) w)
      = fst (random_octets E (Suc (Suc (Suc (Suc 0)))) w')"
    by (rule fst_random_octets_cong)
  then show ?thesis by (simp add: generateRandomIP_def case_prod_beta)
qed


lemma fst_generateRandomIP_requests:
  "fst (generateRandomIP E (w\<lparr>requests := rs\<rparr>)) = fst (generateRandomIP E w)"
  by (rule fst_generateRandomIP_cong) simp

lemma fst_generateRandomIP_console:
  "fst (generateRandomIP E (w\<lparr>console := ls\<rparr>)) = fst (generateRandomIP E w)"
  by (rule fst_generateRandomIP_cong) simp

lemma fetch_strategies_cases:
  "fetch_strategies E url ua w =
    (case env_axios E (length (requests w)) (get_config url (headers ua)) of
       Inr r \<Rightarrow> (Inr r, w\<lparr>requests := requests w @ [get_config url (headers ua)]\<rparr>)
     | Inl e1 \<Rightarrow>
        (case env_axios E (Suc (length (requests w))) (get_config url (minimalHeaders ua)) of
           Inr r \<Rightarrow>
            (Inr r,
             w\<lparr>requests := requests w @ [get_config url (headers ua), get_config url (minimalHeaders ua)],
               console := console w @ [''Direct request failed, trying alternative methods...'']\<rparr>)
         | Inl e2 \<Rightarrow>
            (env_axios E (Suc (Suc (length (requests w))))
               (get_config url (altHeaders ua (fst (generateRandomIP E w)))),
             w\<lparr>requests := requests w @
                 [get_config url (headers ua), get_config url (minimalHeaders ua),
                  get_config url (altHeaders ua (fst (generateRandomIP E w)))],
               console := console w @ [''Direct request failed, trying alternative methods...''],
               draws := draws w + 4\<rparr>)))"
proof -
  have gen: "generateRandomIP E v = (fst (generateRandomIP E v), v\<lparr>draws := draws v + 4\<rparr>)" for v
    using snd_generateRandomIP [of E v] by (simp add: prod_eq_iff)
  show ?thesis
    unfolding fetch_strategies_def axios_call_def console_log_def
    apply (simp split: sum.splits)
    apply (subst gen)
    apply (simp add: fst_generateRandomIP_requests fst_generateRandomIP_console split: sum.splits)
    done
qed

lemma fetch_from_fresh:
  "fetch_strategies E url (fst (pick_randomUA E world0)) (snd (pick_randomUA E world0)) =
    (case env_axios E 0 (strategy1 E url) of
       Inr r \<Rightarrow> (Inr r, \<lparr>requests = [strategy1 E url], console = [], draws = 1\<rparr>)
     | Inl e1 \<Rightarrow>
        (case env_axios E 1 (strategy2 E url) of
           Inr r \<Rightarrow>
            (Inr r,
             \<lparr>requests = [strategy1 E url, strategy2 E url],
              console = [''Direct request failed, trying alternative methods...''],
              draws = 1\<rparr>)
         | Inl e2 \<Rightarrow>
            (env_axios E 2 (strategy3 E url),
             \<lparr>requests = [strategy1 E url, strategy2 E url, strategy3 E url],
              console = [''Direct request failed, trying alternative methods...''],
              draws = 5\<rparr>)))"
proof -
  define w1 where "w1 = snd (pick_randomUA E world0)"
  have w1: "requests w1 = []" "console w1 = []" "draws w1 = 1"
    by (simp_all add: w1_def snd_pick_randomUA world0_def)
  have upd: "w1\<lparr>requests := rs, console := ls, draws := d\<rparr> = \<lparr>requests = rs, console = ls, draws = d\<rparr>"
    for rs ls d by simp
  have upd1: "w1\<lparr>requests := rs\<rparr> = \<lparr>requests = rs, console = [], draws = 1\<rparr>" for rs
    using w1 by (cases w1) simp
  have upd2: "w1\<lparr>requests := rs, console := ls\<rparr> = \<lparr>requests = rs, console = ls, draws = 1\<rparr>" for rs ls
    using w1 by (cases w1) simp
  show ?thesis
    unfolding w1_def [symmetric] strategy1_def strategy2_def strategy3_def
    by (simp add: fetch_strategies_cases w1 upd upd1 upd2 numeral_2_eq_2 split: sum.splits)
qed

lemma proxy_image_valid:
  assumes "url \<noteq> []" and "isValidImageUrl (env_URL E) url"
  shows "proxy_image E (Some url) =
    (case env_axios E 0 (strategy1 E url) of
       Inr r \<Rightarrow>
        (send_image E r res0, \<lparr>requests = [strategy1 E url], console = [], draws = 1\<rparr>)
     | Inl e1 \<Rightarrow>
        (case env_axios E 1 (strategy2 E url) of
           Inr r \<Rightarrow>
            (send_image E r res0,
             \<lparr>requests = [strategy1 E url, strategy2 E url],
              console = [''Direct request failed, trying alternative methods...''],
              draws = 1\<rparr>)
         | Inl e2 \<Rightarrow>
            (case env_axios E 2 (strategy3 E url) of
               Inr r \<Rightarrow>
                (send_image E r res0,
                 \<lparr>requests = [strategy1 E url, strategy2 E url, strategy3 E url],
                  console = [''Direct request failed, trying alternative methods...''],
                  draws = 5\<rparr>)
             | Inl e3 \<Rightarrow>
                (fst (catch_error e3 res0 world0),
                 \<lparr>requests = [strategy1 E url, strategy2 E url, strategy3 E url],
                  console = [''Direct request failed, trying alternative methods...'',
                             ''Proxy error: '' @ err_message e3],
                  draws = 5\<rparr>))))"
proof -
  let ?f = "fetch_strategies E url (fst (pick_randomUA E world0)) (snd (pick_randomUA E world0))"
  have run: "proxy_image E (Some url) =
      (case fst ?f of
         Inr response \<Rightarrow> (send_image E response res0, snd ?f)
       | Inl error \<Rightarrow> catch_error error res0 (snd ?f))"
    using assms by (simp add: proxy_image_def case_prod_beta)
  have catch: "catch_error e r w = (fst (catch_error e r world0),
      w\<lparr>console := console w @ [''Proxy error: '' @ err_message e]\<rparr>)" for e r w
    by (simp add: catch_error_def console_log_def Let_def)
  show ?thesis
    unfolding run fetch_from_fresh
    by (simp add: catch [of _ _ "\<lparr>requests = rs, console = ls, draws = d\<rparr>" for rs ls d]
        split: sum.splits)
qed






lemma fst_catch_error:
  "fst (catch_error e res0 w) =
    (if err_code e = Some ''ENOTFOUND'' \<or> err_code e = Some ''ECONNREFUSED''
       then \<lparr>statusCode = 404, res_headers = Map.empty, res_body = Some (Json_error ''Image not found'')\<rparr>
     else if (case err_response e of None \<Rightarrow> False | Some r \<Rightarrow> resp_status r = 403)
       then \<lparr>statusCode = 403, res_headers = Map.empty, res_body = Some (Json_error ''Access forbidden'')\<rparr>
     else if err_code e = Some ''ETIMEDOUT''
       then \<lparr>statusCode = 408, res_headers = Map.empty, res_body = Some (Json_error ''Request timeout'')\<rparr>
     else \<lparr>statusCode = 500, res_headers = Map.empty, res_body = Some (Json_error ''Failed to fetch image'')\<rparr>)"
  by (simp add: catch_error_def Let_def json_error_def status_def res0_def)

lemma proxy_image_all_failed:
  assumes "url \<noteq> []" and "isValidImageUrl (env_URL E) url"
    and "env_axios E 0 (strategy1 E url) = Inl e1"
    and "env_axios E 1 (strategy2 E url) = Inl e2"
    and "env_axios E 2 (strategy3 E url) = Inl e3"
  shows "proxy_image E (Some url) =
    (fst (catch_error e3 res0 world0),
     \<lparr>requests = [strategy1 E url, strategy2 E url, strategy3 E url],
      console = [''Direct request failed, trying alternative methods...'',
                 ''Proxy error: '' @ err_message e3],
      draws = 5\<rparr>)"
  using assms by (simp add: proxy_image_valid)

lemma strategies_distinct: "distinct [strategy1 E url, strategy2 E url, strategy3 E url]"
  by (simp add: strategy1_def strategy2_def strategy3_def get_config_def headers_def
      minimalHeaders_def altHeaders_def)


lemma valid_foo: "isValidImageUrl URL_table ''https://scontent.cdninstagram.com/foo.jpg''"
  by (simp add: isValidImageUrl_def URL_table_def validDomains_def)

lemma env_test_env:
  "env_URL (test_env os) = URL_table"
  "env_axios (test_env os) k c = scripted os k c"
  "env_random (test_env os) k = half_draw"
  "env_content_type (test_env os) v = content_type_table v"
  "env_fresh (test_env os) etag = False"
  by (simp_all add: test_env_def)


lemma test_env_randomUA:
  "fst (pick_randomUA (test_env os) world0) =
    ''Mozilla/5.0 (X11; Linux x86_64) AppleWebKit/537.36 (KHTML, like Gecko) Chrome/120.0.0.0 Safari/537.36''"
  by (simp add: fst_pick_randomUA env_test_env world0_def half_draw.rep_eq userAgents_def)

section \<open>The validator\<close>

text \<open>
  C10. Deleting the \<open>endsWith\<close> clause changes the validator's result on no input: a
  hostname that ends with an allow-list entry contains it, so the check
  \<open>includes \<or> endsWith\<close> and the check \<open>includes\<close> alone are the same function. This holds
  whatever the URL constructor returns.
\<close>

theorem isValidImageUrl_endsWith_redundant:
  "isValidImageUrl URL url = isValidImageUrl_includes_only URL url"
proof (cases "URL url")
  case None
  then show ?thesis
    by (simp add: isValidImageUrl_def isValidImageUrl_includes_only_def)
next
  case (Some parsedUrl)
  have "(includes_str (hostname parsedUrl) d \<or> endsWith (hostname parsedUrl) d)
      = includes_str (hostname parsedUrl) d" for d
    using endsWith_includes by blast
  with Some show ?thesis
    by (simp add: isValidImageUrl_def isValidImageUrl_includes_only_def)
qed

lemma isValidImageUrl_iff:
  "isValidImageUrl URL url \<longleftrightarrow>
    (\<exists>p. URL url = Some p \<and>
      (\<exists>d \<in> set [''scontent.cdninstagram.com'', ''instagram.com'', ''threads.net'',
                  ''fbcdn.net'', ''scontent.xx.fbcdn.net''].
         (\<exists>a b. hostname p = a @ d @ b) \<or> (\<exists>a. hostname p = a @ d)))"
  by (cases "URL url")
    (simp_all add: isValidImageUrl_def validDomains_def includes_iff endsWith_iff del: append_assoc)

text \<open>
  C8. When the input parses, the validator accepts it exactly when the hostname contains
  one of the five allow-list entries or ends with one. The match is by substring, so a
  hostname such as \<open>instagram.com.attacker.net\<close>, which only contains an entry, is
  accepted.
\<close>

theorem validator_accepts_substring_hosts:
  assumes "URL url = Some p"
  shows "(isValidImageUrl URL url \<longleftrightarrow>
      (\<exists>d \<in> set [''scontent.cdninstagram.com'', ''instagram.com'', ''threads.net'',
                  ''fbcdn.net'', ''scontent.xx.fbcdn.net''].
         (\<exists>a b. hostname p = a @ d @ b) \<or> (\<exists>a. hostname p = a @ d)))
    \<and> (hostname p = ''instagram.com.attacker.net'' \<longrightarrow> isValidImageUrl URL url)"
proof
  show "isValidImageUrl URL url \<longleftrightarrow>
      (\<exists>d \<in> set [''scontent.cdninstagram.com'', ''instagram.com'', ''threads.net'',
                  ''fbcdn.net'', ''scontent.xx.fbcdn.net''].
         (\<exists>a b. hostname p = a @ d @ b) \<or> (\<exists>a. hostname p = a @ d))"
    using assms by (simp add: isValidImageUrl_iff)
  show "hostname p = ''instagram.com.attacker.net'' \<longrightarrow> isValidImageUrl URL url"
    using assms by (simp add: isValidImageUrl_def validDomains_def)
qed

theorem validator_accepts_substring_hosts_witness:
  "URL_table ''https://instagram.com.attacker.net/x.jpg'' = Some \<lparr>hostname = ''instagram.com.attacker.net''\<rparr>
   \<and> isValidImageUrl URL_table ''https://instagram.com.attacker.net/x.jpg''"
proof -
  have h: "URL_table ''https://instagram.com.attacker.net/x.jpg'' = Some \<lparr>hostname = ''instagram.com.attacker.net''\<rparr>"
    by (simp add: URL_table_def)
  have "isValidImageUrl URL_table ''https://instagram.com.attacker.net/x.jpg''"
    using validator_accepts_substring_hosts
      [of URL_table "''https://instagram.com.attacker.net/x.jpg''"
          "\<lparr>hostname = ''instagram.com.attacker.net''\<rparr>", OF h, THEN conjunct2]
    by simp
  with h show ?thesis by (rule conjI)
qed

section \<open>Requests that make no network call\<close>

text \<open>
  C9. A \<open>url\<close> parameter that is present but empty is answered like an absent one:
  status 400 with the body \<open>{error: "URL parameter is required"}\<close>. The answer is the
  same in every environment, so neither the validator nor the network is consulted, and
  the log of axios calls stays empty.
\<close>

theorem empty_url_is_missing:
  "proxy_image E (Some []) =
     (\<lparr>statusCode = 400, res_headers = Map.empty,
       res_body = Some (Json_error ''URL parameter is required'')\<rparr>, world0)
   \<and> proxy_image E (Some []) = proxy_image E' None
   \<and> requests (snd (proxy_image E (Some []))) = []"
  by (simp add: proxy_image_def json_error_def status_def res0_def world0_def)

text \<open>
  C2, as stated, fails for the empty string: it does not parse and the validator rejects
  it, yet the handler answers \<open>URL parameter is required\<close>, because the presence check
  of lines 47-49 comes first.
\<close>

theorem empty_url_not_invalid_url_reply:
  "env_URL (test_env []) [] = None
   \<and> \<not> isValidImageUrl (env_URL (test_env [])) []
   \<and> fst (proxy_image (test_env []) (Some [])) =
       \<lparr>statusCode = 400, res_headers = Map.empty,
        res_body = Some (Json_error ''URL parameter is required'')\<rparr>
   \<and> res_body (fst (proxy_image (test_env []) (Some []))) \<noteq> Some (Json_error ''Invalid image URL'')"
  by (simp add: proxy_image_def json_error_def status_def res0_def env_test_env
      URL_table_def isValidImageUrl_def)

text \<open>
  C2, amended. For every non-empty input string that fails to parse, or whose hostname
  neither contains nor ends with an allow-list entry, the validator returns false, the
  response is status 400 with the body \<open>{error: "Invalid image URL"}\<close>, and no axios call
  is issued.
\<close>

theorem rejected_url_answered_400:
  assumes "url \<noteq> []"
    and "env_URL E url = None \<or>
      (\<exists>p. env_URL E url = Some p \<and>
        \<not> (\<exists>d \<in> set [''scontent.cdninstagram.com'', ''instagram.com'', ''threads.net'',
                      ''fbcdn.net'', ''scontent.xx.fbcdn.net''].
             (\<exists>a b. hostname p = a @ d @ b) \<or> (\<exists>a. hostname p = a @ d)))"
  shows "\<not> isValidImageUrl (env_URL E) url
    \<and> fst (proxy_image E (Some url)) =
        \<lparr>statusCode = 400, res_headers = Map.empty,
         res_body = Some (Json_error ''Invalid image URL'')\<rparr>
    \<and> requests (snd (proxy_image E (Some url))) = []"
proof -
  define ds where "ds = [''scontent.cdninstagram.com'', ''instagram.com'', ''threads.net'',
    ''fbcdn.net'', ''scontent.xx.fbcdn.net'']"
  have iff: "isValidImageUrl (env_URL E) url \<longleftrightarrow>
      (\<exists>p. env_URL E url = Some p \<and>
        (\<exists>d \<in> set ds. (\<exists>a b. hostname p = a @ d @ b) \<or> (\<exists>a. hostname p = a @ d)))"
    unfolding ds_def by (rule isValidImageUrl_iff)
  have rejected: "env_URL E url = None \<or>
      (\<exists>p. env_URL E url = Some p \<and>
        \<not> (\<exists>d \<in> set ds. (\<exists>a b. hostname p = a @ d @ b) \<or> (\<exists>a. hostname p = a @ d)))"
    unfolding ds_def by (rule assms(2))
  have invalid: "\<not> isValidImageUrl (env_URL E) url"
  proof
    assume "isValidImageUrl (env_URL E) url"
    then obtain p where p: "env_URL E url = Some p"
      and m: "\<exists>d \<in> set ds. (\<exists>a b. hostname p = a @ d @ b) \<or> (\<exists>a. hostname p = a @ d)"
      unfolding iff by blast
    from rejected p have "\<not> (\<exists>d \<in> set ds. (\<exists>a b. hostname p = a @ d @ b) \<or> (\<exists>a. hostname p = a @ d))"
      by auto
    with m show False by blast
  qed
  with assms(1) show ?thesis
    by (simp add: proxy_image_def json_error_def status_def res0_def world0_def)
qed

lemma evil_host_unmatched:
  "\<not> (\<exists>d \<in> set [''scontent.cdninstagram.com'', ''instagram.com'', ''threads.net'',
                  ''fbcdn.net'', ''scontent.xx.fbcdn.net''].
         (\<exists>a b. ''evil.example.com'' = a @ d @ b) \<or> (\<exists>a. ''evil.example.com'' = a @ d))"
  by (simp add: includes_iff [symmetric] endsWith_iff [symmetric] endsWith_def del: append_assoc)

theorem rejected_url_answered_400_witness:
  "(fst (proxy_image (test_env []) (Some ''https://evil.example.com/x.jpg'')) =
      \<lparr>statusCode = 400, res_headers = Map.empty,
       res_body = Some (Json_error ''Invalid image URL'')\<rparr>
    \<and> requests (snd (proxy_image (test_env []) (Some ''https://evil.example.com/x.jpg''))) = [])
   \<and> (env_URL (test_env []) ''not a url'' = None
    \<and> fst (proxy_image (test_env []) (Some ''not a url'')) =
      \<lparr>statusCode = 400, res_headers = Map.empty,
       res_body = Some (Json_error ''Invalid image URL'')\<rparr>
    \<and> requests (snd (proxy_image (test_env []) (Some ''not a url''))) = [])"
proof -
  have evil: "env_URL (test_env []) ''https://evil.example.com/x.jpg'' = Some \<lparr>hostname = ''evil.example.com''\<rparr>"
    by (simp add: env_test_env URL_table_def)
  have h1: "env_URL (test_env []) ''https://evil.example.com/x.jpg'' = None \<or>
      (\<exists>p. env_URL (test_env []) ''https://evil.example.com/x.jpg'' = Some p \<and>
        \<not> (\<exists>d \<in> set [''scontent.cdninstagram.com'', ''instagram.com'', ''threads.net'',
                      ''fbcdn.net'', ''scontent.xx.fbcdn.net''].
             (\<exists>a b. hostname p = a @ d @ b) \<or> (\<exists>a. hostname p = a @ d)))"
    using evil_host_unmatched by (simp only: evil) simp
  have none: "env_URL (test_env []) ''not a url'' = None"
    by (simp add: env_test_env URL_table_def)
  have h2: "env_URL (test_env []) ''not a url'' = None \<or>
      (\<exists>p. env_URL (test_env []) ''not a url'' = Some p \<and>
        \<not> (\<exists>d \<in> set [''scontent.cdninstagram.com'', ''instagram.com'', ''threads.net'',
                      ''fbcdn.net'', ''scontent.xx.fbcdn.net''].
             (\<exists>a b. hostname p = a @ d @ b) \<or> (\<exists>a. hostname p = a @ d)))"
    using none by simp
  have n1: "''https://evil.example.com/x.jpg'' \<noteq> []" and n2: "''not a url'' \<noteq> []"
    by simp_all
  show ?thesis
    using rejected_url_answered_400 [OF n1 h1] rejected_url_answered_400 [OF n2 h2] none
    by simp
qed

section \<open>Requests that reach the network\<close>




text \<open>
  C3. For a request that passes validation the axios calls are a prefix of strategy 1,
  strategy 2, strategy 3 (three different configurations). Strategy 2 is attempted
  exactly when the attempt of strategy 1 failed, strategy 3 exactly when strategy 2 was
  attempted and failed, and when strategy 1 succeeds the only call made is that of
  strategy 1.
\<close>

theorem strategies_attempted_in_order:
  assumes "url \<noteq> []" and "isValidImageUrl (env_URL E) url"
  shows "(requests (snd (proxy_image E (Some url))) = [strategy1 E url]
      \<or> requests (snd (proxy_image E (Some url))) = [strategy1 E url, strategy2 E url]
      \<or> requests (snd (proxy_image E (Some url))) = [strategy1 E url, strategy2 E url, strategy3 E url])
    \<and> distinct [strategy1 E url, strategy2 E url, strategy3 E url]
    \<and> (strategy2 E url \<in> set (requests (snd (proxy_image E (Some url))))
          \<longleftrightarrow> isl (env_axios E 0 (strategy1 E url)))
    \<and> (strategy3 E url \<in> set (requests (snd (proxy_image E (Some url))))
          \<longleftrightarrow> strategy2 E url \<in> set (requests (snd (proxy_image E (Some url))))
              \<and> isl (env_axios E 1 (strategy2 E url)))
    \<and> (\<not> isl (env_axios E 0 (strategy1 E url))
          \<longrightarrow> requests (snd (proxy_image E (Some url))) = [strategy1 E url])"
proof -
  have d: "distinct [strategy1 E url, strategy2 E url, strategy3 E url]"
    by (rule strategies_distinct)
  then have ne: "strategy1 E url \<noteq> strategy2 E url" "strategy1 E url \<noteq> strategy3 E url"
    "strategy2 E url \<noteq> strategy3 E url"
    by auto
  show ?thesis
  proof (cases "env_axios E 0 (strategy1 E url)")
    case (Inr r)
    then show ?thesis using assms d ne by (simp add: proxy_image_valid)
  next
    case e1: (Inl e1)
    show ?thesis
    proof (cases "env_axios E 1 (strategy2 E url)")
      case (Inr r)
      with e1 show ?thesis using assms d ne by (simp add: proxy_image_valid)
    next
      case e2: (Inl e2)
      show ?thesis
      proof (cases "env_axios E 2 (strategy3 E url)")
        case (Inr r)
        with e1 e2 show ?thesis using assms d ne by (simp add: proxy_image_valid)
      next
        case (Inl e3)
        with e1 e2 show ?thesis using assms d ne by (simp add: proxy_image_valid)
      qed
    qed
  qed
qed

theorem strategies_attempted_in_order_witness:
  "requests (snd (proxy_image (test_env [Inr webp_response])
      (Some ''https://scontent.cdninstagram.com/foo.jpg''))) =
    [strategy1 (test_env [Inr webp_response]) ''https://scontent.cdninstagram.com/foo.jpg'']
   \<and> strategy3 (test_env [Inl refused_error, Inl refused_error, Inr webp_response])
        ''https://scontent.cdninstagram.com/foo.jpg''
      \<in> set (requests (snd (proxy_image
          (test_env [Inl refused_error, Inl refused_error, Inr webp_response])
          (Some ''https://scontent.cdninstagram.com/foo.jpg''))))"
proof -
  let ?E = "test_env [Inr webp_response]"
  let ?F = "test_env [Inl refused_error, Inl refused_error, Inr webp_response]"
  let ?url = "''https://scontent.cdninstagram.com/foo.jpg''"
  have n: "?url \<noteq> []" by simp
  have v: "isValidImageUrl (env_URL ?E) ?url" and v': "isValidImageUrl (env_URL ?F) ?url"
    by (simp_all only: env_test_env valid_foo)
  have ok: "\<not> isl (env_axios ?E 0 (strategy1 ?E ?url))"
    by (simp add: env_test_env scripted_def)
  have failed: "isl (env_axios ?F 0 (strategy1 ?F ?url))" "isl (env_axios ?F 1 (strategy2 ?F ?url))"
    by (simp_all add: env_test_env scripted_def)
  have one: "requests (snd (proxy_image ?E (Some ?url))) = [strategy1 ?E ?url]"
    using strategies_attempted_in_order [OF n v] ok by blast
  have three: "strategy3 ?F ?url \<in> set (requests (snd (proxy_image ?F (Some ?url))))"
    using strategies_attempted_in_order [OF n v'] failed by blast
  from one three show ?thesis by (rule conjI)
qed

section \<open>Requests whose three attempts all fail\<close>

text \<open>
  C6. When all three attempts fail, the response is the classification of the error of
  the third attempt, and the console holds the message of that error only: the errors of
  the first two attempts appear nowhere in what the handler produces.
\<close>

theorem last_error_is_surfaced:
  assumes "url \<noteq> []" and "isValidImageUrl (env_URL E) url"
    and "env_axios E 0 (strategy1 E url) = Inl e1"
    and "env_axios E 1 (strategy2 E url) = Inl e2"
    and "env_axios E 2 (strategy3 E url) = Inl e3"
  shows "fst (proxy_image E (Some url)) = fst (catch_error e3 res0 world0)
    \<and> console (snd (proxy_image E (Some url))) =
        [''Direct request failed, trying alternative methods...'',
         ''Proxy error: '' @ err_message e3]"
  using assms by (simp add: proxy_image_all_failed)

theorem last_error_is_surfaced_witness:
  "fst (proxy_image (test_env [Inl reset_error, Inl forbidden_error, Inl refused_error])
      (Some ''https://scontent.cdninstagram.com/foo.jpg'')) =
    \<lparr>statusCode = 404, res_headers = Map.empty, res_body = Some (Json_error ''Image not found'')\<rparr>
   \<and> console (snd (proxy_image (test_env [Inl reset_error, Inl forbidden_error, Inl refused_error])
      (Some ''https://scontent.cdninstagram.com/foo.jpg''))) =
    [''Direct request failed, trying alternative methods...'',
     ''Proxy error: connect ECONNREFUSED 203.0.113.7:443'']"
proof -
  let ?E = "test_env [Inl reset_error, Inl forbidden_error, Inl refused_error]"
  let ?url = "''https://scontent.cdninstagram.com/foo.jpg''"
  have n: "?url \<noteq> []" by simp
  have v: "isValidImageUrl (env_URL ?E) ?url"
    by (simp only: env_test_env valid_foo)
  have f1: "env_axios ?E 0 (strategy1 ?E ?url) = Inl reset_error"
    and f2: "env_axios ?E 1 (strategy2 ?E ?url) = Inl forbidden_error"
    and f3: "env_axios ?E 2 (strategy3 ?E ?url) = Inl refused_error"
    by (simp_all add: env_test_env scripted_def)
  show ?thesis
    using last_error_is_surfaced [OF n v f1 f2 f3]
    by (simp add: fst_catch_error refused_error_def)
qed




text \<open>
  The branch of lines 166-168 answers 408 when the last error has the code \<open>ETIMEDOUT\<close>
  (and no earlier branch applies).
\<close>

lemma etimedout_answered_408:
  assumes "url \<noteq> []" and "isValidImageUrl (env_URL E) url"
    and "env_axios E 0 (strategy1 E url) = Inl e1"
    and "env_axios E 1 (strategy2 E url) = Inl e2"
    and "env_axios E 2 (strategy3 E url) = Inl e3"
    and "err_code e3 = Some ''ETIMEDOUT''"
    and "\<not> (\<exists>r. err_response e3 = Some r \<and> resp_status r = 403)"
  shows "fst (proxy_image E (Some url)) =
    \<lparr>statusCode = 408, res_headers = Map.empty, res_body = Some (Json_error ''Request timeout'')\<rparr>"
proof -
  have "\<not> (case err_response e3 of None \<Rightarrow> False | Some r \<Rightarrow> resp_status r = 403)"
    using assms(7) by (cases "err_response e3") simp_all
  then show ?thesis
    using assms by (simp add: proxy_image_all_failed fst_catch_error)
qed

lemma os_timeout_answered_408:
  "fst (proxy_image (test_env [Inl reset_error, Inl reset_error, Inl os_timeout_error])
      (Some ''https://scontent.cdninstagram.com/foo.jpg'')) =
    \<lparr>statusCode = 408, res_headers = Map.empty, res_body = Some (Json_error ''Request timeout'')\<rparr>"
  by (rule etimedout_answered_408 [of _ _ reset_error reset_error os_timeout_error])
    (simp_all add: env_test_env valid_foo scripted_def os_timeout_error_def)

text \<open>
  C5. The program bounds each call with \<open>timeout: 25000\<close>. When that timeout elapses,
  axios rejects with the code \<open>ECONNABORTED\<close>, which none of the branches of the
  \<open>catch\<close> block names. With this error on all three attempts the handler answers 500
  with \<open>{error: "Failed to fetch image"}\<close>, not 408.
\<close>

theorem axios_timeout_answered_500:
  "fst (proxy_image (test_env [Inl axios_timeout_error, Inl axios_timeout_error, Inl axios_timeout_error])
      (Some ''https://scontent.cdninstagram.com/foo.jpg'')) =
    \<lparr>statusCode = 500, res_headers = Map.empty,
     res_body = Some (Json_error ''Failed to fetch image'')\<rparr>"
proof -
  let ?E = "test_env [Inl axios_timeout_error, Inl axios_timeout_error, Inl axios_timeout_error]"
  let ?url = "''https://scontent.cdninstagram.com/foo.jpg''"
  have "proxy_image ?E (Some ?url) =
    (fst (catch_error axios_timeout_error res0 world0),
     \<lparr>requests = [strategy1 ?E ?url, strategy2 ?E ?url, strategy3 ?E ?url],
      console = [''Direct request failed, trying alternative methods...'',
                 ''Proxy error: '' @ err_message axios_timeout_error],
      draws = 5\<rparr>)"
    by (rule proxy_image_all_failed) (simp_all add: env_test_env valid_foo scripted_def)
  then show ?thesis
    by (simp add: fst_catch_error axios_timeout_error_def)
qed

section \<open>The user agent of a request\<close>

text \<open>
  C7. For a request that passes validation, one user agent is picked: it is an element of
  the pool of four, it is determined by the first random draw alone, and it is picked
  while the log of axios calls is still empty. At least one call is made, and every call
  of the request carries exactly that user agent in its \<open>User-Agent\<close> header.
\<close>

theorem one_user_agent_per_request:
  assumes "url \<noteq> []" and "isValidImageUrl (env_URL E) url"
  shows "fst (pick_randomUA E world0) \<in> set userAgents
    \<and> 4 \<le> length userAgents
    \<and> fst (pick_randomUA E world0) = userAgents ! nat \<lfloor>Rep_unit_draw (env_random E 0) * 4\<rfloor>
    \<and> requests (snd (pick_randomUA E world0)) = []
    \<and> requests (snd (proxy_image E (Some url))) \<noteq> []
    \<and> (\<forall>config \<in> set (requests (snd (proxy_image E (Some url)))).
          map_of (cfg_headers config) ''User-Agent'' = Some (fst (pick_randomUA E world0)))"
proof -
  have calls: "requests (snd (proxy_image E (Some url))) = [strategy1 E url]
      \<or> requests (snd (proxy_image E (Some url))) = [strategy1 E url, strategy2 E url]
      \<or> requests (snd (proxy_image E (Some url))) = [strategy1 E url, strategy2 E url, strategy3 E url]"
    using assms by (simp add: proxy_image_valid split: sum.splits)
  have ua: "map_of (cfg_headers (strategy1 E url)) ''User-Agent'' = Some (fst (pick_randomUA E world0))"
    "map_of (cfg_headers (strategy2 E url)) ''User-Agent'' = Some (fst (pick_randomUA E world0))"
    "map_of (cfg_headers (strategy3 E url)) ''User-Agent'' = Some (fst (pick_randomUA E world0))"
    by (simp_all add: strategy1_def strategy2_def strategy3_def get_config_def headers_def
        minimalHeaders_def altHeaders_def)
  have pick: "fst (pick_randomUA E world0) = userAgents ! nat \<lfloor>Rep_unit_draw (env_random E 0) * 4\<rfloor>"
    by (simp add: fst_pick_randomUA world0_def)
  have before: "requests (snd (pick_randomUA E world0)) = []"
    by (simp add: snd_pick_randomUA world0_def)
  have pool: "4 \<le> length userAgents"
    by (simp add: userAgents_def)
  from calls ua show ?thesis
    using pick_randomUA_in_pool [of E world0] pick before pool by auto
qed

theorem one_user_agent_per_request_witness:
  "map (\<lambda>config. map_of (cfg_headers config) ''User-Agent'')
      (requests (snd (proxy_image (test_env [Inl forbidden_error, Inl forbidden_error, Inr webp_response])
        (Some ''https://scontent.cdninstagram.com/foo.jpg'')))) =
    [Some ''Mozilla/5.0 (X11; Linux x86_64) AppleWebKit/537.36 (KHTML, like Gecko) Chrome/120.0.0.0 Safari/537.36'',
     Some ''Mozilla/5.0 (X11; Linux x86_64) AppleWebKit/537.36 (KHTML, like Gecko) Chrome/120.0.0.0 Safari/537.36'',
     Some ''Mozilla/5.0 (X11; Linux x86_64) AppleWebKit/537.36 (KHTML, like Gecko) Chrome/120.0.0.0 Safari/537.36'']"
proof -
  let ?E = "test_env [Inl forbidden_error, Inl forbidden_error, Inr webp_response]"
  let ?url = "''https://scontent.cdninstagram.com/foo.jpg''"
  have n: "?url \<noteq> []" by simp
  have v: "isValidImageUrl (env_URL ?E) ?url"
    by (simp only: env_test_env valid_foo)
  have calls: "requests (snd (proxy_image ?E (Some ?url))) = [strategy1 ?E ?url, strategy2 ?E ?url, strategy3 ?E ?url]"
    using n v by (simp add: proxy_image_valid env_test_env scripted_def)
  have "\<forall>config \<in> set (requests (snd (proxy_image ?E (Some ?url)))).
      map_of (cfg_headers config) ''User-Agent'' = Some (fst (pick_randomUA ?E world0))"
    using one_user_agent_per_request [OF n v] by blast
  then show ?thesis
    unfolding calls test_env_randomUA by simp
qed

end
